theory Spec2Isabelle
  imports Main "HOL-Library.Log_Nat"
begin

section \<open>JavaScript numbers\<close>

text \<open>
  A JavaScript number is an IEEE 754 binary64 value. Every finite binary64 value is an
  integer multiple of the smallest subnormal \<open>2^-1074\<close>, so a finite number is kept as
  that integer: \<open>Fin k\<close> stands for \<open>k * 2^-1074\<close>. The two zeros are one value
  (\<open>Fin 0\<close>): nothing in the script divides by an amount or inspects the sign of zero.
  Arithmetic rounds to nearest, ties to even, on 53 significant bits, and overflows to an
  infinity from \<open>2^1024\<close> (that is \<open>2^2098\<close> units) on.
\<close>

datatype jsnum = NaN | PInf | NInf | Fin int

definition unit_scale :: int where
  "unit_scale = 2 ^ 1074"

definition overflow_bound :: int where
  "overflow_bound = 2 ^ 2098"

text \<open>
  \<open>round_ratio p q\<close> rounds the non-negative rational \<open>p / q\<close> (in units, \<open>q > 0\<close>) to
  the nearest integer with at most 53 significant bits, ties to the even significand.
\<close>

definition round_ratio :: "int \<Rightarrow> int \<Rightarrow> int" where
  "round_ratio p q =
     (let f = p div q;
          s = nat (bitlen f - 53);
          d = q * 2 ^ s;
          m = p div d;
          r = p mod d
      in (if d < 2 * r \<or> (2 * r = d \<and> odd m) then m + 1 else m) * 2 ^ s)"

definition num_of_ratio :: "int \<Rightarrow> int \<Rightarrow> jsnum" where
  "num_of_ratio p q =
     (if 0 \<le> p
      then (let r = round_ratio p q in if overflow_bound \<le> r then PInf else Fin r)
      else (let r = round_ratio (- p) q in if overflow_bound \<le> r then NInf else Fin (- r)))"

text \<open>The value \<open>m * 2^e\<close> (for \<open>- 1074 \<le> e\<close>), and a whole number such as an array length.\<close>

definition dbl :: "int \<Rightarrow> int \<Rightarrow> jsnum" where
  "dbl m e = Fin (m * 2 ^ nat (e + 1074))"

definition whole :: "nat \<Rightarrow> jsnum" where
  "whole n = Fin (int n * unit_scale)"

text \<open>The number that the decimal literal of value \<open>n / d\<close> denotes: the nearest binary64 value.\<close>

definition decimal :: "int \<Rightarrow> int \<Rightarrow> jsnum" where
  "decimal n d = num_of_ratio (n * unit_scale) d"

text \<open>The operator \<open>+\<close> on two numbers.\<close>

fun num_add :: "jsnum \<Rightarrow> jsnum \<Rightarrow> jsnum" where
  "num_add NaN y = NaN"
| "num_add x NaN = NaN"
| "num_add PInf NInf = NaN"
| "num_add NInf PInf = NaN"
| "num_add PInf y = PInf"
| "num_add x PInf = PInf"
| "num_add NInf y = NInf"
| "num_add x NInf = NInf"
| "num_add (Fin a) (Fin b) = num_of_ratio (a + b) 1"

text \<open>The operator \<open>/\<close> of a number by an array length (a non-negative whole number).\<close>

fun num_div :: "jsnum \<Rightarrow> nat \<Rightarrow> jsnum" where
  "num_div NaN n = NaN"
| "num_div PInf n = PInf"
| "num_div NInf n = NInf"
| "num_div (Fin a) n =
     (if n = 0 then (if a = 0 then NaN else if 0 < a then PInf else NInf)
      else num_of_ratio a (int n))"

text \<open>
  The comparison \<open>x < y\<close> of two numbers; \<open>None\<close> is the answer \<open>undefined\<close> that a NaN
  operand gives. \<open>x > y\<close> holds when \<open>y < x\<close> is true, and \<open>x <= y\<close> when \<open>y < x\<close> is false
  (neither true nor undefined).
\<close>

fun num_lt :: "jsnum \<Rightarrow> jsnum \<Rightarrow> bool option" where
  "num_lt NaN y = None"
| "num_lt x NaN = None"
| "num_lt PInf y = Some False"
| "num_lt x PInf = Some True"
| "num_lt x NInf = Some False"
| "num_lt NInf y = Some True"
| "num_lt (Fin a) (Fin b) = Some (a < b)"

definition num_gt :: "jsnum \<Rightarrow> jsnum \<Rightarrow> bool" where
  "num_gt x y = (num_lt y x = Some True)"

definition num_le :: "jsnum \<Rightarrow> jsnum \<Rightarrow> bool" where
  "num_le x y = (num_lt y x = Some False)"

section \<open>JavaScript values\<close>

text \<open>
  The arguments of the script's functions are untyped. The model covers the values on which
  the operators of the script return: undefined, null, booleans, numbers and strings. It has
  no symbol (as amount it makes \<open>amount <= 0\<close> throw a TypeError, before anything is checked
  or stored), no object (its conversion runs code of its own) and no big integer; no
  statement below speaks of a call with one of them.
\<close>

datatype jsval = JUndefined | JNull | JBool bool | JNum jsnum | JStr string

fun typeof :: "jsval \<Rightarrow> string" where
  "typeof JUndefined = ''undefined''"
| "typeof JNull = ''object''"
| "typeof (JBool b) = ''boolean''"
| "typeof (JNum x) = ''number''"
| "typeof (JStr s) = ''string''"

text \<open>
  \<open>ToNumber\<close>, the coercion that \<open>amount <= 0\<close> applies to its left operand. The conversion
  of a string to a number is a built-in of the language; it is the parameter \<open>sn\<close>.
\<close>

fun ToNumber :: "(string \<Rightarrow> jsnum) \<Rightarrow> jsval \<Rightarrow> jsnum" where
  "ToNumber sn JUndefined = NaN"
| "ToNumber sn JNull = Fin 0"
| "ToNumber sn (JBool b) = (if b then whole 1 else Fin 0)"
| "ToNumber sn (JNum x) = x"
| "ToNumber sn (JStr s) = sn s"

text \<open>The operator \<open>===\<close>: same type and same value, and NaN equal to nothing.\<close>

fun strict_eq :: "jsval \<Rightarrow> jsval \<Rightarrow> bool" where
  "strict_eq (JNum a) (JNum b) = (a \<noteq> NaN \<and> b \<noteq> NaN \<and> a = b)"
| "strict_eq x y = (x = y)"

text \<open>\<open>Array.prototype.includes\<close> on an array of strings.\<close>

fun includes' :: "string list \<Rightarrow> jsval \<Rightarrow> bool" where
  "includes' xs (JStr s) = (s \<in> set xs)"
| "includes' xs v = False"

section \<open>The console\<close>

datatype level = Log | Warn | Error

datatype message =
    AmountMustBeGreaterThanZero
  | AmountMustBeNumber
  | CategoryMustBeOneOf "string list"
  | DescriptionMustBeString
  | ExpenseAdded nat
  | NoExpensesFound
  | TotalFor string jsnum
  | Total jsnum
  | NoExpensesToReport
  | ReportHeader string
  | ReportRule
  | ReportCategory string jsnum nat
  | ReportTotal jsnum nat
  | ReportAverage jsnum
  | ReportTopCategory string jsnum
  | IdMustBeNumber
  | ExpenseRemoved jsval
  | ExpenseNotFound jsval

type_synonym console = "(level \<times> message) list"

section \<open>The ledger\<close>

record expense =
  id' :: nat
  amount :: jsnum
  category :: string
  description :: string
  date :: nat

definition categories :: "string list" where
  "categories = [''food'', ''transport'', ''entertainment'', ''utilities'',
                 ''healthcare'', ''shopping'', ''other'']"

definition checkValidity :: "(string \<Rightarrow> jsnum) \<Rightarrow> jsval \<Rightarrow> jsval \<Rightarrow> jsval \<Rightarrow> bool \<times> console" where
  "checkValidity sn amt cat descr =
     (if num_le (ToNumber sn amt) (Fin 0) then (False, [(Warn, AmountMustBeGreaterThanZero)])
      else if typeof amt \<noteq> ''number'' then (False, [(Error, AmountMustBeNumber)])
      else if \<not> includes' categories cat then (False, [(Error, CategoryMustBeOneOf categories)])
      else if typeof descr \<noteq> ''string'' then (False, [(Error, DescriptionMustBeString)])
      else (True, []))"

text \<open>
  \<open>addExpense\<close> reads the clock (\<open>new Date()\<close>): the time is the parameter \<open>now\<close>. The array
  \<open>expenses\<close> is passed in and returned. The new id is \<open>expenses.length + 1\<close>, a whole
  number below \<open>2^32\<close>, kept as a natural number. A validated input is a number and two
  strings (lemma \<open>checkValidity_shape\<close>), so the last case is never reached.
\<close>

definition addExpense ::
  "(string \<Rightarrow> jsnum) \<Rightarrow> nat \<Rightarrow> jsval \<Rightarrow> jsval \<Rightarrow> jsval \<Rightarrow> expense list \<Rightarrow> expense list \<times> console" where
  "addExpense sn now amt cat descr expenses =
     (let (isValidated, out) = checkValidity sn amt cat descr
      in if isValidated
         then (case (amt, cat, descr) of
                 (JNum a, JStr c, JStr d) \<Rightarrow>
                   (let expense = \<lparr>id' = length expenses + 1, amount = a, category = c,
                                   description = d, date = now\<rparr>
                    in (expenses @ [expense], out @ [(Log, ExpenseAdded (id' expense))]))
               | _ \<Rightarrow> (expenses, out))
         else (expenses, out))"

text \<open>\<open>Array.prototype.findIndex\<close>: the first index whose element passes, or \<open>-1\<close>.\<close>

fun findIndex :: "('a \<Rightarrow> bool) \<Rightarrow> 'a list \<Rightarrow> int" where
  "findIndex P [] = - 1"
| "findIndex P (x # xs) =
     (if P x then 0 else (let i = findIndex P xs in if i = - 1 then - 1 else i + 1))"

text \<open>\<open>expenses.splice(index, 1)\<close> for an index inside the array.\<close>

definition splice1 :: "'a list \<Rightarrow> nat \<Rightarrow> 'a list" where
  "splice1 xs i = take i xs @ drop (Suc i) xs"

definition removeExpense :: "jsval \<Rightarrow> expense list \<Rightarrow> expense list \<times> console" where
  "removeExpense ident expenses =
     (if typeof ident \<noteq> ''number'' then (expenses, [(Error, IdMustBeNumber)])
      else (let index = findIndex (\<lambda>exp. strict_eq (JNum (whole (id' exp))) ident) expenses
            in if index \<noteq> - 1
               then (splice1 expenses (nat index), [(Log, ExpenseRemoved ident)])
               else (expenses, [(Log, ExpenseNotFound ident)])))"

text \<open>
  Looking a record up by id, with the test \<open>exp.id === id\<close> of \<open>removeExpense\<close>: the first
  record that passes, if any.
\<close>

definition findById :: "jsval \<Rightarrow> expense list \<Rightarrow> expense option" where
  "findById ident expenses = find (\<lambda>exp. strict_eq (JNum (whole (id' exp))) ident) expenses"

text \<open>A history of calls, run from left to right on a ledger.\<close>

datatype call = Add nat jsval jsval jsval | Remove jsval

fun run :: "(string \<Rightarrow> jsnum) \<Rightarrow> call list \<Rightarrow> expense list \<Rightarrow> expense list" where
  "run sn [] expenses = expenses"
| "run sn (Add now amt cat descr # cs) expenses =
     run sn cs (fst (addExpense sn now amt cat descr expenses))"
| "run sn (Remove ident # cs) expenses = run sn cs (fst (removeExpense ident expenses))"

section \<open>Totals and the report\<close>

text \<open>
  Both iterations of \<open>calculateTotal\<close>, from the running total \<open>tot\<close> (the variable
  \<open>total\<close>): over the records of one category, and over all records.
\<close>

fun sum_category :: "string \<Rightarrow> jsnum \<Rightarrow> expense list \<Rightarrow> jsnum" where
  "sum_category cat tot [] = tot"
| "sum_category cat tot (item # items) =
     sum_category cat (if category item = cat then num_add tot (amount item) else tot) items"

fun sum_all :: "jsnum \<Rightarrow> expense list \<Rightarrow> jsnum" where
  "sum_all tot [] = tot"
| "sum_all tot (item # items) = sum_all (num_add tot (amount item)) items"

text \<open>
  \<open>calculateTotal(category = "")\<close>. The guard is written \<open>!expenses.length > 0\<close>, which is
  \<open>(!expenses.length) > 0\<close>: the negation gives a boolean, compared as 1 or 0.
\<close>

definition calculateTotal :: "string \<Rightarrow> expense list \<Rightarrow> console" where
  "calculateTotal cat expenses =
     (let tot = Fin 0
      in if (0::nat) < (if length expenses = 0 then 1 else 0) then [(Log, NoExpensesFound)]
         else if 0 < length cat then [(Log, TotalFor cat (sum_category cat tot expenses))]
         else [(Log, Total (sum_all tot expenses))])"

text \<open>
  The object \<open>categoryTotals\<close> of \<open>generateReport\<close>: its keys are the category names of
  the ledger, names of the fixed list, none of them an array index or a property that every
  object inherits, so \<open>Object.entries\<close> lists them in the order of their creation. It is an
  association list in that order, with one entry per key.
\<close>

record tally =
  total' :: jsnum
  count' :: nat

definition add_to_totals :: "(string \<times> tally) list \<Rightarrow> expense \<Rightarrow> (string \<times> tally) list" where
  "add_to_totals totals e =
     (let totals1 = (if map_of totals (category e) = None
                     then totals @ [(category e, \<lparr>total' = Fin 0, count' = 0\<rparr>)]
                     else totals)
      in map (\<lambda>(k, v). if k = category e
                         then (k, \<lparr>total' = num_add (total' v) (amount e), count' = count' v + 1\<rparr>)
                         else (k, v)) totals1)"

definition categoryTotals :: "expense list \<Rightarrow> (string \<times> tally) list" where
  "categoryTotals expenses = foldl add_to_totals [] expenses"

definition grandTotal :: "(string \<times> tally) list \<Rightarrow> jsnum" where
  "grandTotal entries = foldl (\<lambda>g (cat, data). num_add g (total' data)) (Fin 0) entries"

definition topCategory :: "(string \<times> tally) list \<Rightarrow> string \<times> jsnum" where
  "topCategory entries =
     foldl (\<lambda>mx (cat, data). if num_gt (total' data) (snd mx) then (cat, total' data) else mx)
       ([], Fin 0) entries"

text \<open>
  \<open>generateReport\<close>. The month and year of the header come from the clock: the parameter
  \<open>monthYear\<close>. A message carries the number that \<open>formatCurrency\<close> prints.
\<close>

definition generateReport :: "string \<Rightarrow> expense list \<Rightarrow> console" where
  "generateReport monthYear expenses =
     (if length expenses = 0 then [(Warn, NoExpensesToReport)]
      else (let entries = categoryTotals expenses;
                g = grandTotal entries;
                top = topCategory entries
            in [(Log, ReportHeader monthYear), (Log, ReportRule)]
               @ map (\<lambda>(cat, data). (Log, ReportCategory cat (total' data) (count' data))) entries
               @ [(Log, ReportRule),
                  (Log, ReportTotal g (length expenses)),
                  (Log, ReportAverage (num_div g (length expenses))),
                  (Log, ReportTopCategory (fst top) (snd top))]))"

section \<open>Kinds of validation errors\<close>

text \<open>
  The validator reports a failure as a console message. The messages about the amount, the
  category and the description are the three kinds of validation error.
\<close>

datatype validation_error = InvalidAmount | InvalidCategory | InvalidDescription

fun error_kind :: "message \<Rightarrow> validation_error option" where
  "error_kind AmountMustBeGreaterThanZero = Some InvalidAmount"
| "error_kind AmountMustBeNumber = Some InvalidAmount"
| "error_kind (CategoryMustBeOneOf cs) = Some InvalidCategory"
| "error_kind DescriptionMustBeString = Some InvalidDescription"
| "error_kind m = None"

section \<open>Editing a record\<close>

text \<open>
  The script lists "6. Edit Expense" in its menu and has no function that edits a record.
  The operation \<open>edit(id, fields)\<close> is taken from the specification of the ledger, and so is
  the validator it calls: the specification's validator rejects every amount that is not a
  positive number, while \<open>checkValidity\<close> of the script lets NaN through.
\<close>

text \<open>
  Modelled from the spec: the validator \<open>validate(amount, category, description)\<close> in the form
  the specification gives it, missing from the script. It fails with \<open>InvalidAmount\<close> when the
  amount is not a positive number, with \<open>InvalidCategory\<close> when the category is not in the
  fixed list, with \<open>InvalidDescription\<close> when the description is not a string, checked in
  this order, and succeeds otherwise.
\<close>

definition positive_number :: "jsval \<Rightarrow> bool" where
  "positive_number v = (case v of JNum x \<Rightarrow> num_gt x (Fin 0) | _ \<Rightarrow> False)"

definition validate :: "jsval \<Rightarrow> jsval \<Rightarrow> jsval \<Rightarrow> validation_error + unit" where
  "validate amt cat descr =
     (if \<not> positive_number amt then Inl InvalidAmount
      else if \<not> includes' categories cat then Inl InvalidCategory
      else if typeof descr \<noteq> ''string'' then Inl InvalidDescription
      else Inr ())"

text \<open>
  Modelled from the spec: the argument \<open>fields\<close> of \<open>edit\<close>, missing from the script. Each of
  amount, category and description is either given a new value or left as it is.
\<close>

record fields =
  new_amount :: "jsval option"
  new_category :: "jsval option"
  new_description :: "jsval option"

text \<open>
  Modelled from the spec: the errors of \<open>edit\<close>, missing from the script: the id is absent, or
  the validator rejects the merged record.
\<close>

datatype edit_error = NotFound | Invalid validation_error

text \<open>
  Modelled from the spec: the merged record of \<open>edit\<close>, missing from the script: the amount,
  category and description of the existing record, each overridden by the field given.
\<close>

definition merged :: "fields \<Rightarrow> expense \<Rightarrow> jsval \<times> jsval \<times> jsval" where
  "merged fs old =
     (case new_amount fs of None \<Rightarrow> JNum (amount old) | Some v \<Rightarrow> v,
      case new_category fs of None \<Rightarrow> JStr (category old) | Some v \<Rightarrow> v,
      case new_description fs of None \<Rightarrow> JStr (description old) | Some v \<Rightarrow> v)"

text \<open>
  Modelled from the spec: the operation \<open>edit(id, fields)\<close>, missing from the script. It fails
  with \<open>NotFound\<close> when no record has the id; otherwise it validates the merged amount, category
  and description before committing, and only then writes the merged record in place, keeping
  its id and date. The lookup is the one of \<open>removeExpense\<close>. A validated record is a number
  and two strings, so the last case is never reached.
\<close>

definition editExpense ::
  "jsval \<Rightarrow> fields \<Rightarrow> expense list \<Rightarrow> (edit_error + unit) \<times> expense list" where
  "editExpense ident fs expenses =
     (let index = findIndex (\<lambda>exp. strict_eq (JNum (whole (id' exp))) ident) expenses
      in case findById ident expenses of
           None \<Rightarrow> (Inl NotFound, expenses)
         | Some old \<Rightarrow>
             (let (amt, cat, descr) = merged fs old
              in case validate amt cat descr of
                   Inl e \<Rightarrow> (Inl (Invalid e), expenses)
                 | Inr u \<Rightarrow>
                     (case (amt, cat, descr) of
                        (JNum a, JStr c, JStr d) \<Rightarrow>
                          (Inr (), expenses[nat index :=
                             old\<lparr>amount := a, category := c, description := d\<rparr>])
                      | _ \<Rightarrow> (Inl (Invalid InvalidAmount), expenses))))"

section \<open>Notions used in the proofs\<close>

text \<open>
  The entry of a category in the object \<open>categoryTotals\<close>, read as \<open>{total: 0, count: 0}\<close> when
  the category has no entry yet.
\<close>

definition tally0 :: "(string \<times> tally) list \<Rightarrow> string \<Rightarrow> tally" where
  "tally0 T c = (case map_of T c of None \<Rightarrow> \<lparr>total' = Fin 0, count' = 0\<rparr> | Some d \<Rightarrow> d)"

text \<open>
  The numbers that the literals \<open>0.1\<close>, \<open>0.2\<close>, \<open>0.3\<close>, \<open>0.5\<close>, \<open>0.6\<close> and
  \<open>0.6000000000000001\<close> denote, as significand and exponent.
\<close>

definition lit_0_1 :: jsnum where
  "lit_0_1 = dbl 3602879701896397 (- 55)"

definition lit_0_2 :: jsnum where
  "lit_0_2 = dbl 3602879701896397 (- 54)"

definition lit_0_3 :: jsnum where
  "lit_0_3 = dbl 5404319552844595 (- 54)"

definition lit_0_5 :: jsnum where
  "lit_0_5 = dbl 1 (- 1)"

definition lit_0_6 :: jsnum where
  "lit_0_6 = dbl 5404319552844595 (- 53)"

definition lit_0_6000000000000001 :: jsnum where
  "lit_0_6000000000000001 = dbl 1351079888211149 (- 51)"

section \<open>Facts about numbers\<close>

lemma unit_scale_pos: "0 < unit_scale"
  by (simp add: unit_scale_def)

lemma whole_eq_iff [simp]: "whole m = whole n \<longleftrightarrow> m = n"
  using unit_scale_pos by (simp add: whole_def)

lemma whole_not_special [simp]: "whole n \<noteq> NaN" "whole n \<noteq> PInf" "whole n \<noteq> NInf"
  by (simp_all add: whole_def)

lemma num_le_whole_zero [simp]: "num_le (whole n) (Fin 0) \<longleftrightarrow> n = 0"
  using unit_scale_pos by (simp add: whole_def num_le_def zero_less_mult_iff)

lemma strict_eq_whole [simp]: "strict_eq (JNum (whole m)) (JNum (whole n)) \<longleftrightarrow> m = n"
  by simp

lemma num_le_NaN [simp]: "\<not> num_le NaN y"
  by (cases y) (simp_all add: num_le_def)

section \<open>Validation\<close>

text \<open>
  What \<open>checkValidity\<close> accepts: a value of type number that is not \<open><= 0\<close>, a category of
  the list, and a string.
\<close>

lemma checkValidity_accepts_iff:
  "fst (checkValidity sn amt cat descr) \<longleftrightarrow>
     (\<exists>x. amt = JNum x \<and> \<not> num_le x (Fin 0)) \<and>
     (\<exists>c. cat = JStr c \<and> c \<in> set categories) \<and>
     (\<exists>d. descr = JStr d)"
proof (cases amt)
  case (JNum x)
  show ?thesis
  proof (cases cat)
    case (JStr c)
    show ?thesis
      by (cases descr) (simp_all add: checkValidity_def JNum JStr)
  qed (simp_all add: checkValidity_def JNum)
qed (simp_all add: checkValidity_def)

lemma checkValidity_shape:
  "fst (checkValidity sn amt cat descr) \<Longrightarrow> \<exists>a c d. amt = JNum a \<and> cat = JStr c \<and> descr = JStr d"
  by (auto simp: checkValidity_accepts_iff)

lemma checkValidity_accepted_silent:
  "fst (checkValidity sn amt cat descr) \<Longrightarrow> snd (checkValidity sn amt cat descr) = []"
  by (simp add: checkValidity_def split: if_splits)

text \<open>
  Claim C2. The validator is to succeed exactly for a positive number, a category of the fixed
  set and a textual description, and to fail with the amount error for every amount that is
  not a positive number, NaN included. The script tests \<open>amount <= 0\<close>, which is false for NaN,
  and then \<open>typeof amount\<close>, which is \<open>"number"\<close> for NaN: the validator accepts NaN as an
  amount and prints nothing.
\<close>

theorem checkValidity_accepts_NaN:
  "checkValidity sn (JNum NaN) (JStr ''food'') (JStr ''lunch'') = (True, [])"
  by (simp add: checkValidity_def categories_def)

section \<open>Adding and removing\<close>

lemma addExpense_accepted:
  assumes "fst (checkValidity sn (JNum a) (JStr c) (JStr d))"
  shows "addExpense sn now (JNum a) (JStr c) (JStr d) es =
           (es @ [\<lparr>id' = length es + 1, amount = a, category = c, description = d, date = now\<rparr>],
            [(Log, ExpenseAdded (length es + 1))])"
proof -
  have "checkValidity sn (JNum a) (JStr c) (JStr d) = (True, [])"
    using assms checkValidity_accepted_silent [OF assms]
    by (cases "checkValidity sn (JNum a) (JStr c) (JStr d)") simp
  then show ?thesis
    by (simp add: addExpense_def)
qed

lemma addExpense_rejected:
  assumes "\<not> fst (checkValidity sn amt cat descr)"
  shows "addExpense sn now amt cat descr es = (es, snd (checkValidity sn amt cat descr))"
proof -
  obtain out where "checkValidity sn amt cat descr = (False, out)"
    using assms by (cases "checkValidity sn amt cat descr") simp
  then show ?thesis
    by (simp add: addExpense_def)
qed

lemma checkValidity_whole:
  "0 < n \<Longrightarrow> c \<in> set categories \<Longrightarrow> fst (checkValidity sn (JNum (whole n)) (JStr c) (JStr d))"
  by (simp add: checkValidity_accepts_iff)

lemma food_category: "''food'' \<in> set categories"
  by (simp add: categories_def)

lemma findIndex_range:
  "findIndex P xs = - 1 \<or> (0 \<le> findIndex P xs \<and> findIndex P xs < int (length xs))"
  by (induction xs) (auto simp: Let_def)

lemma findIndex_none_iff: "findIndex P xs = - 1 \<longleftrightarrow> (\<forall>x\<in>set xs. \<not> P x)"
proof (induction xs)
  case (Cons x xs)
  have "0 \<le> findIndex P xs \<or> findIndex P xs = - 1"
    using findIndex_range [of P xs] by auto
  with Cons show ?case by (auto simp: Let_def)
qed simp

lemma findIndex_takeWhile:
  "findIndex P xs = (if \<exists>x\<in>set xs. P x then int (length (takeWhile (\<lambda>y. \<not> P y) xs)) else - 1)"
  by (induction xs) (auto simp: Let_def)

lemma find_append_none:
  "find P xs = None \<Longrightarrow> find P (xs @ ys) = find P ys"
  by (induction xs) (auto split: if_splits)

text \<open>A ledger built by additions alone is numbered 1, 2, 3 and so on.\<close>

lemma addExpense_ids_upto:
  assumes "fst (checkValidity sn (JNum a) (JStr c) (JStr d))"
    and "map id' es = [1..<Suc (length es)]"
  shows "map id' (fst (addExpense sn now (JNum a) (JStr c) (JStr d) es)) =
           [1..<Suc (Suc (length es))]"
  using assms(2) by (simp add: addExpense_accepted [OF assms(1)])

text \<open>
  When no stored record carries the id \<open>expenses.length + 1\<close>, the record that \<open>addExpense\<close>
  appends is the one found under the id it reports.
\<close>

lemma addExpense_lookup_fresh:
  assumes "fst (checkValidity sn (JNum a) (JStr c) (JStr d))"
    and "\<forall>e\<in>set es. id' e \<noteq> length es + 1"
  shows "findById (JNum (whole (length es + 1)))
           (fst (addExpense sn now (JNum a) (JStr c) (JStr d) es)) =
         Some \<lparr>id' = length es + 1, amount = a, category = c, description = d, date = now\<rparr>"
proof -
  have "find (\<lambda>exp. strict_eq (JNum (whole (id' exp))) (JNum (whole (length es + 1)))) es = None"
    using assms(2) by (simp add: find_None_iff)
  then show ?thesis
    by (simp add: addExpense_accepted [OF assms(1)] findById_def find_append_none)
qed

lemma removeExpense_absent:
  assumes "\<forall>e\<in>set es. \<not> strict_eq (JNum (whole (id' e))) (JNum x)"
  shows "removeExpense (JNum x) es = (es, [(Log, ExpenseNotFound (JNum x))])"
  using assms by (simp add: removeExpense_def findIndex_none_iff)

lemma removeExpense_present:
  assumes "\<exists>e\<in>set es. strict_eq (JNum (whole (id' e))) (JNum x)"
  shows "length (fst (removeExpense (JNum x) es)) + 1 = length es \<and>
         snd (removeExpense (JNum x) es) = [(Log, ExpenseRemoved (JNum x))]"
proof -
  let ?i = "findIndex (\<lambda>exp. strict_eq (JNum (whole (id' exp))) (JNum x)) es"
  have "?i \<noteq> - 1"
    using assms by (simp add: findIndex_none_iff)
  moreover from this have "0 \<le> ?i" "?i < int (length es)"
    using findIndex_range [of _ es] by auto
  ultimately show ?thesis
    by (auto simp: removeExpense_def splice1_def Let_def)
qed

text \<open>On a ledger whose ids are pairwise distinct, a removed id is no longer found.\<close>

lemma removeExpense_lookup_distinct:
  assumes "distinct (map id' es)"
  shows "findById (JNum x) (fst (removeExpense (JNum x) es)) = None"
proof (cases "\<exists>e\<in>set es. strict_eq (JNum (whole (id' e))) (JNum x)")
  case False
  then show ?thesis
    by (auto simp: removeExpense_absent findById_def find_None_iff)
next
  case True
  let ?P = "\<lambda>exp. strict_eq (JNum (whole (id' exp))) (JNum x)"
  let ?pre = "takeWhile (\<lambda>y. \<not> ?P y) es"
  let ?post = "dropWhile (\<lambda>y. \<not> ?P y) es"
  have idx: "findIndex ?P es = int (length ?pre)"
    using True by (simp add: findIndex_takeWhile)
  from True have "?post \<noteq> []"
    by auto
  then obtain e rest where post: "?post = e # rest"
    by (cases ?post) auto
  then have Pe: "?P e"
    using hd_dropWhile [of "\<lambda>y. \<not> ?P y" es] \<open>?post \<noteq> []\<close> by auto
  have split: "es = ?pre @ e # rest"
    using post takeWhile_dropWhile_id [of "\<lambda>y. \<not> ?P y" es] by simp
  have pre_no: "\<forall>y\<in>set ?pre. \<not> ?P y"
    using set_takeWhileD [of _ "\<lambda>y. \<not> ?P y" es] by auto
  have "distinct (map id' (?pre @ e # rest))"
    using assms split by simp
  then have "id' e \<notin> id' ` set rest"
    by simp
  then have "\<forall>y\<in>set rest. id' y \<noteq> id' e"
    by (metis imageI)
  then have rest_no: "\<forall>y\<in>set rest. \<not> ?P y"
    using Pe by auto
  have "fst (removeExpense (JNum x) es) = splice1 es (length ?pre)"
    using idx by (simp add: removeExpense_def Let_def)
  also have "\<dots> = splice1 (?pre @ e # rest) (length ?pre)"
    using split by simp
  also have "\<dots> = ?pre @ rest"
    by (simp add: splice1_def)
  finally show ?thesis
    using pre_no rest_no by (auto simp: findById_def find_None_iff)
qed

text \<open>
  Claim C1. In every ledger reached by calls of \<open>addExpense\<close> and \<open>removeExpense\<close> the ids are
  to be pairwise distinct, and an id freed by a removal is never to be given to a later
  record. The script numbers a new record \<open>expenses.length + 1\<close>. After two additions and the
  removal of record 1, the ledger holds record 2 and has length 1, so the third addition is
  numbered 2 as well: two stored records share the id 2. After one addition and its
  removal, the next addition receives the freed id 1 again.
\<close>

theorem ids_repeat_after_removal:
  "map id' (run sn [Add t1 (JNum (whole 10)) (JStr ''food'') (JStr ''a''),
                    Add t2 (JNum (whole 20)) (JStr ''food'') (JStr ''b''),
                    Remove (JNum (whole 1)),
                    Add t3 (JNum (whole 30)) (JStr ''food'') (JStr ''c'')] []) = [2, 2] \<and>
   map id' (run sn [Add t1 (JNum (whole 10)) (JStr ''food'') (JStr ''a''),
                    Remove (JNum (whole 1)),
                    Add t2 (JNum (whole 20)) (JStr ''food'') (JStr ''b'')] []) = [1]"
  by (simp add: addExpense_accepted checkValidity_whole food_category removeExpense_def splice1_def)

text \<open>
  Claim C3. For every ledger and every valid input, \<open>addExpense\<close> is to append one record and
  give its id, and the record found under that id is to carry the given amount, category and
  description. On the ledger left by two additions and the removal of record 1, the call
  \<open>addExpense(30, "food", "c")\<close> reports the id 2, and the record found under 2 is the older
  one, with amount 20 and description "b". (With no stored record of that id the lookup
  finds the new record: lemma \<open>addExpense_lookup_fresh\<close>.)
\<close>

theorem addExpense_lookup_finds_older_record:
  "snd (addExpense sn t3 (JNum (whole 30)) (JStr ''food'') (JStr ''c'')
         (run sn [Add t1 (JNum (whole 10)) (JStr ''food'') (JStr ''a''),
                  Add t2 (JNum (whole 20)) (JStr ''food'') (JStr ''b''),
                  Remove (JNum (whole 1))] [])) = [(Log, ExpenseAdded 2)] \<and>
   findById (JNum (whole 2))
     (fst (addExpense sn t3 (JNum (whole 30)) (JStr ''food'') (JStr ''c'')
         (run sn [Add t1 (JNum (whole 10)) (JStr ''food'') (JStr ''a''),
                  Add t2 (JNum (whole 20)) (JStr ''food'') (JStr ''b''),
                  Remove (JNum (whole 1))] []))) =
     Some \<lparr>id' = 2, amount = whole 20, category = ''food'', description = ''b'', date = t2\<rparr>"
  by (simp add: addExpense_accepted checkValidity_whole food_category removeExpense_def splice1_def
      findById_def)

text \<open>
  Every input that fails one of the four tests of \<open>checkValidity\<close> (an amount that is \<open><= 0\<close>, an
  amount that is not of type number, a category outside the fixed list, a description that
  is not a string) leaves the ledger as it was and prints one message, of the kind of the
  first failed test.
\<close>

lemma addExpense_failed_test:
  assumes "num_le (ToNumber sn amt) (Fin 0) \<or> typeof amt \<noteq> ''number'' \<or>
           \<not> includes' categories cat \<or> typeof descr \<noteq> ''string''"
  shows "fst (addExpense sn now amt cat descr es) = es \<and>
         (\<exists>l m. snd (addExpense sn now amt cat descr es) = [(l, m)] \<and>
            error_kind m = Some (if num_le (ToNumber sn amt) (Fin 0) \<or> typeof amt \<noteq> ''number''
                                 then InvalidAmount
                                 else if \<not> includes' categories cat then InvalidCategory
                                 else InvalidDescription))"
proof -
  have rej: "\<not> fst (checkValidity sn amt cat descr)"
    using assms by (auto simp: checkValidity_def)
  show ?thesis
    using assms by (auto simp: addExpense_rejected [OF rej] checkValidity_def)
qed

text \<open>
  Claim C4. For every ledger, \<open>addExpense\<close> with an invalid input is to leave the ledger as it
  was and to report the validation error. NaN is an amount that is not a number, and it
  passes both amount tests of the validator (claim C2): on every ledger,
  \<open>addExpense(NaN, "food", "lunch")\<close> appends a record whose amount is NaN and prints the
  message of success, and no error.
\<close>

theorem addExpense_stores_NaN:
  "addExpense sn now (JNum NaN) (JStr ''food'') (JStr ''lunch'') es =
     (es @ [\<lparr>id' = length es + 1, amount = NaN, category = ''food'', description = ''lunch'',
              date = now\<rparr>],
      [(Log, ExpenseAdded (length es + 1))])"
  by (simp add: addExpense_accepted checkValidity_accepts_iff food_category)

text \<open>
  Claim C5. For every ledger and numeric id, \<open>removeExpense\<close> is to report that the id was not
  found and keep the length when no record has the id; when some record has it, the length
  is to drop by one and the id is no longer to be found. The first two parts hold (lemmas
  \<open>removeExpense_absent\<close> and \<open>removeExpense_present\<close>), and the last holds on ledgers with
  distinct ids (lemma \<open>removeExpense_lookup_distinct\<close>). On the ledger of claim C1, whose two
  records both have the id 2, \<open>removeExpense(2)\<close> deletes the first of them, and the id 2 is
  still found.
\<close>

theorem removeExpense_leaves_second_copy:
  "length (run sn [Add t1 (JNum (whole 10)) (JStr ''food'') (JStr ''a''),
                  Add t2 (JNum (whole 20)) (JStr ''food'') (JStr ''b''),
                  Remove (JNum (whole 1)),
                  Add t3 (JNum (whole 30)) (JStr ''food'') (JStr ''c'')] []) = 2 \<and>
   removeExpense (JNum (whole 2))
     (run sn [Add t1 (JNum (whole 10)) (JStr ''food'') (JStr ''a''),
              Add t2 (JNum (whole 20)) (JStr ''food'') (JStr ''b''),
              Remove (JNum (whole 1)),
              Add t3 (JNum (whole 30)) (JStr ''food'') (JStr ''c'')] []) =
     ([\<lparr>id' = 2, amount = whole 30, category = ''food'', description = ''c'', date = t3\<rparr>],
      [(Log, ExpenseRemoved (JNum (whole 2)))]) \<and>
   findById (JNum (whole 2))
     [\<lparr>id' = 2, amount = whole 30, category = ''food'', description = ''c'', date = t3\<rparr>] =
     Some \<lparr>id' = 2, amount = whole 30, category = ''food'', description = ''c'', date = t3\<rparr>"
  by (simp add: addExpense_accepted checkValidity_whole food_category removeExpense_def splice1_def
      findById_def)

section \<open>Rounding\<close>

text \<open>A positive sum never rounds to zero, and a sum of at most 53 bits is not rounded at all.\<close>

lemma round_ratio_pos:
  assumes "0 < p"
  shows "0 < round_ratio p 1"
proof -
  define s where "s = nat (bitlen p - 53)"
  have "(2::int) ^ s \<le> p"
  proof (cases "s = 0")
    case True
    with assms show ?thesis by simp
  next
    case False
    then have "s \<le> nat (bitlen p - 1)"
      by (simp add: s_def)
    then have "(2::int) ^ s \<le> 2 ^ nat (bitlen p - 1)"
      by (simp add: power_increasing)
    also have "\<dots> \<le> p"
      using bitlen_bounds [OF assms] by simp
    finally show ?thesis .
  qed
  then have "(2::int) ^ s div 2 ^ s \<le> p div 2 ^ s"
    by (intro zdiv_mono1) simp_all
  then have "1 \<le> p div 2 ^ s"
    by simp
  then have "1 \<le> p div 2 ^ nat (bitlen p - 53)"
    by (simp add: s_def)
  then show ?thesis
    by (simp add: round_ratio_def Let_def zero_less_mult_iff)
qed

lemma round_ratio_exact:
  assumes "0 \<le> n" "n \<le> 2 ^ 53"
  shows "round_ratio (n * 2 ^ j) 1 = n * 2 ^ j"
proof (cases "n = 0")
  case True
  then show ?thesis by (simp add: round_ratio_def)
next
  case False
  with assms have pos: "0 < n" by simp
  define s where "s = nat (bitlen (n * 2 ^ j) - 53)"
  have bl: "bitlen (n * 2 ^ j) = bitlen n + int j"
    using pos by simp
  have "(2::int) ^ s dvd n * 2 ^ j"
  proof (cases "n = 2 ^ 53")
    case True
    have "bitlen ((2::int) ^ 53) = 54"
      using bitlen_twopow_add_eq [of 0 53] by simp
    then have "s = j + 1"
      using True by (simp add: s_def bl)
    moreover have "n * 2 ^ j = 2 ^ (j + 1) * 2 ^ 52"
      using True by simp
    ultimately show ?thesis
      by (metis dvd_triv_left)
  next
    case False
    with assms have "n < 2 ^ nat 53" by simp
    then have "bitlen n \<le> 53"
      by (simp add: bitlen_le_iff_power)
    then have "s \<le> j"
      by (simp add: s_def bl)
    then have "(2::int) ^ s dvd 2 ^ j"
      by (simp add: le_imp_power_dvd)
    then show ?thesis
      by (rule dvd_mult)
  qed
  then have m: "(n * 2 ^ j) mod 2 ^ s = 0" and d: "(n * 2 ^ j) div 2 ^ s * 2 ^ s = n * 2 ^ j"
    by simp_all
  show ?thesis
    using m d by (simp add: round_ratio_def s_def [symmetric] Let_def)
qed

lemma num_add_exact:
  assumes "0 \<le> a" "0 \<le> b" "a + b \<le> 2 ^ 53" "j \<le> 2044"
  shows "num_add (Fin (a * 2 ^ j)) (Fin (b * 2 ^ j)) = Fin ((a + b) * 2 ^ j)"
proof -
  have r: "round_ratio ((a + b) * 2 ^ j) 1 = (a + b) * 2 ^ j"
    using assms by (intro round_ratio_exact) simp_all
  have "(a + b) * 2 ^ j \<le> 2 ^ 53 * (2::int) ^ j"
    using assms by (intro mult_right_mono) simp_all
  also have "\<dots> = 2 ^ (53 + j)"
    by (simp add: power_add)
  also have "\<dots> < (2::int) ^ 2098"
    using assms(4) by (intro power_strict_increasing) simp_all
  finally have "(a + b) * 2 ^ j < overflow_bound"
    by (simp add: overflow_bound_def)
  moreover have "0 \<le> (a + b) * 2 ^ j"
    using assms by simp
  ultimately show ?thesis
    using r by (simp add: num_of_ratio_def distrib_right)
qed

section \<open>The order of numbers\<close>

lemma num_gt_not_NaN: "num_gt x y \<Longrightarrow> x \<noteq> NaN \<and> y \<noteq> NaN"
  by (cases x; cases y) (simp_all add: num_gt_def)

lemma num_gt_or_le: "x \<noteq> NaN \<Longrightarrow> y \<noteq> NaN \<Longrightarrow> \<not> num_gt x y \<Longrightarrow> num_le x y"
  by (cases x; cases y) (simp_all add: num_gt_def num_le_def)

lemma num_gt_not_le: "num_gt x y \<Longrightarrow> \<not> num_le x y"
  by (simp add: num_gt_def num_le_def)

lemma num_gt_trans: "num_gt x y \<Longrightarrow> num_gt y z \<Longrightarrow> num_gt x z"
  by (cases x; cases y; cases z) (simp_all add: num_gt_def)

lemma num_gt_le_trans: "num_gt x y \<Longrightarrow> num_le z y \<Longrightarrow> num_gt x z"
  by (cases x; cases y; cases z) (simp_all add: num_gt_def num_le_def)

lemma num_le_trans: "num_le x y \<Longrightarrow> num_le y z \<Longrightarrow> num_le x z"
  by (cases x; cases y; cases z) (simp_all add: num_gt_def num_le_def)

lemma num_of_ratio_pos: "0 < p \<Longrightarrow> num_gt (num_of_ratio p 1) (Fin 0)"
  using round_ratio_pos [of p] by (simp add: num_of_ratio_def num_gt_def Let_def)

lemma num_add_pos:
  assumes "t = Fin 0 \<or> num_gt t (Fin 0)" and "num_gt a (Fin 0)"
  shows "num_gt (num_add t a) (Fin 0)"
proof (cases a)
  case (Fin k)
  with assms(2) have k: "0 < k" by (simp add: num_gt_def)
  show ?thesis
  proof (cases t)
    case (Fin l)
    with assms(1) have "0 \<le> l" by (auto simp: num_gt_def)
    with k have "0 < l + k" by simp
    then show ?thesis
      using \<open>a = Fin k\<close> \<open>t = Fin l\<close> by (simp add: num_of_ratio_pos)
  qed (use assms \<open>a = Fin k\<close> in \<open>simp_all add: num_gt_def\<close>)
next
  case PInf
  with assms(1) show ?thesis
    by (cases t) (simp_all add: num_gt_def)
qed (use assms in \<open>simp_all add: num_gt_def\<close>)

section \<open>The entries of the report\<close>

lemma map_of_map_key:
  "map_of (map (\<lambda>(k, v). if k = c then (k, h v) else (k, v)) T) x =
     (if x = c then map_option h (map_of T x) else map_of T x)"
  by (induction T) auto

lemma map_fst_map_key:
  "map fst (map (\<lambda>(k, v). if k = c then (k, h v) else (k, v)) T) = map fst T"
  by (induction T) auto

lemma add_to_totals_keys:
  "map fst (add_to_totals T e) =
     (if category e \<in> set (map fst T) then map fst T else map fst T @ [category e])"
  by (auto simp: add_to_totals_def Let_def map_fst_map_key map_of_eq_None_iff)

lemma add_to_totals_distinct:
  "distinct (map fst T) \<Longrightarrow> distinct (map fst (add_to_totals T e))"
  by (simp add: add_to_totals_keys)

lemma add_to_totals_key_set:
  "fst ` set (add_to_totals T e) = insert (category e) (fst ` set T)"
proof -
  have "set (map fst (add_to_totals T e)) = insert (category e) (set (map fst T))"
    unfolding add_to_totals_keys by auto
  then show ?thesis by simp
qed

lemma add_to_totals_map_of:
  "map_of (add_to_totals T e) c =
     (if c = category e
      then Some \<lparr>total' = num_add (total' (tally0 T c)) (amount e), count' = count' (tally0 T c) + 1\<rparr>
      else map_of T c)"
proof (cases "map_of T (category e)")
  case None
  then have "map_of T c = None" if "c = category e"
    using that by simp
  then show ?thesis
    using None by (auto simp: add_to_totals_def map_of_map_key tally0_def map_add_def
        split: option.splits)
next
  case (Some d)
  then show ?thesis
    by (simp add: add_to_totals_def map_of_map_key tally0_def)
qed

lemma foldl_add_to_totals_distinct:
  "distinct (map fst T) \<Longrightarrow> distinct (map fst (foldl add_to_totals T es))"
  by (induction es arbitrary: T) (simp_all add: add_to_totals_distinct)

lemma foldl_add_to_totals_keys:
  "fst ` set (foldl add_to_totals T es) = fst ` set T \<union> category ` set es"
  by (induction es arbitrary: T) (simp_all add: add_to_totals_key_set)

lemma tally0_add_to_totals:
  "tally0 (add_to_totals T e) c =
     (if c = category e
      then \<lparr>total' = num_add (total' (tally0 T c)) (amount e), count' = count' (tally0 T c) + 1\<rparr>
      else tally0 T c)"
  by (simp add: tally0_def add_to_totals_map_of)

lemma foldl_add_to_totals_tally:
  "tally0 (foldl add_to_totals T es) c =
     \<lparr>total' = sum_category c (total' (tally0 T c)) es,
      count' = count' (tally0 T c) + length (filter (\<lambda>e. category e = c) es)\<rparr>"
proof (induction es arbitrary: T)
  case Nil
  show ?case by simp
next
  case (Cons e es)
  show ?case
    by (simp add: Cons.IH tally0_add_to_totals)
qed

lemma categoryTotals_distinct: "distinct (map fst (categoryTotals es))"
  by (simp add: categoryTotals_def foldl_add_to_totals_distinct)

lemma categoryTotals_keys: "fst ` set (categoryTotals es) = category ` set es"
  by (simp add: categoryTotals_def foldl_add_to_totals_keys)

lemma categoryTotals_entry:
  assumes "(c, d) \<in> set (categoryTotals es)"
  shows "d = \<lparr>total' = sum_category c (Fin 0) es,
              count' = length (filter (\<lambda>e. category e = c) es)\<rparr>"
proof -
  have "map_of (categoryTotals es) c = Some d"
    using assms categoryTotals_distinct by simp
  then have "tally0 (categoryTotals es) c = d"
    by (simp add: tally0_def)
  then show ?thesis
    using foldl_add_to_totals_tally [of "[]" es c] by (simp add: categoryTotals_def tally0_def)
qed

lemma categoryTotals_eq:
  "categoryTotals es =
     map (\<lambda>c. (c, \<lparr>total' = sum_category c (Fin 0) es,
                    count' = length (filter (\<lambda>e. category e = c) es)\<rparr>))
       (map fst (categoryTotals es))"
proof -
  have "\<forall>x\<in>set (categoryTotals es).
          x = (fst x, \<lparr>total' = sum_category (fst x) (Fin 0) es,
                       count' = length (filter (\<lambda>e. category e = fst x) es)\<rparr>)"
    using categoryTotals_entry by (metis prod.collapse)
  then have "map (\<lambda>x. x) (categoryTotals es) =
      map (\<lambda>x. (fst x, \<lparr>total' = sum_category (fst x) (Fin 0) es,
                       count' = length (filter (\<lambda>e. category e = fst x) es)\<rparr>)) (categoryTotals es)"
    by (intro map_cong) auto
  then show ?thesis
    by (simp add: comp_def)
qed

lemma sum_list_delta:
  "distinct ks \<Longrightarrow> k \<in> set ks \<Longrightarrow> sum_list (map (\<lambda>c. if k = c then x else (0::nat)) ks) = x"
  by (induction ks) auto

lemma partition_sum:
  fixes f :: "expense \<Rightarrow> nat"
  assumes "distinct ks" "category ` set es \<subseteq> set ks"
  shows "sum_list (map (\<lambda>c. sum_list (map f (filter (\<lambda>e. category e = c) es))) ks) =
         sum_list (map f es)"
  using assms(2)
proof (induction es)
  case Nil
  show ?case by simp
next
  case (Cons e es)
  have "sum_list (map (\<lambda>c. sum_list (map f (filter (\<lambda>e. category e = c) (e # es)))) ks) =
        sum_list (map (\<lambda>c. (if category e = c then f e else 0) +
                            sum_list (map f (filter (\<lambda>e. category e = c) es))) ks)"
    by (intro arg_cong [where f = sum_list] map_cong) auto
  also have "\<dots> = sum_list (map (\<lambda>c. if category e = c then f e else 0) ks) +
        sum_list (map (\<lambda>c. sum_list (map f (filter (\<lambda>e. category e = c) es))) ks)"
    by (simp add: sum_list_addf)
  also have "\<dots> = f e + sum_list (map f es)"
    using Cons assms(1) by (simp add: sum_list_delta)
  finally show ?case by simp
qed

lemma categoryTotals_counts:
  "sum_list (map (\<lambda>(c, d). count' d) (categoryTotals es)) = length es"
proof -
  have "sum_list (map (\<lambda>(c, d). count' d) (categoryTotals es)) =
        sum_list (map (\<lambda>c. length (filter (\<lambda>e. category e = c) es)) (map fst (categoryTotals es)))"
    by (subst categoryTotals_eq) (simp add: comp_def)
  also have "\<dots> = sum_list (map (\<lambda>c. sum_list (map (\<lambda>e. 1) (filter (\<lambda>e. category e = c) es)))
                       (map fst (categoryTotals es)))"
    by (simp add: sum_list_triv)
  also have "\<dots> = sum_list (map (\<lambda>e. 1) es)"
    by (intro partition_sum categoryTotals_distinct) (simp add: categoryTotals_keys)
  finally show ?thesis
    by (simp add: sum_list_triv)
qed

section \<open>Totals without rounding\<close>

lemma sum_all_append: "sum_all t (A @ B) = sum_all (sum_all t A) B"
  by (induction A arbitrary: t) simp_all

lemma sum_all_exact:
  assumes "\<forall>e\<in>set es. amount e = Fin (int (f e) * 2 ^ j)"
    and "t + sum_list (map f es) \<le> 2 ^ 53" and "j \<le> 2044"
  shows "sum_all (Fin (int t * 2 ^ j)) es = Fin (int (t + sum_list (map f es)) * 2 ^ j)"
  using assms(1,2)
proof (induction es arbitrary: t)
  case Nil
  show ?case by simp
next
  case (Cons e es)
  have le: "int t + int (f e) \<le> 2 ^ 53"
  proof -
    have "t + f e \<le> 2 ^ 53" using Cons.prems(2) by simp
    then have "int (t + f e) \<le> int (2 ^ 53)" by (rule iffD2 [OF of_nat_le_iff])
    then show ?thesis by simp
  qed
  have "num_add (Fin (int t * 2 ^ j)) (amount e) = Fin (int (t + f e) * 2 ^ j)"
    using Cons.prems(1) num_add_exact [of "int t" "int (f e)" j] le assms(3) by simp
  moreover have "sum_all (Fin (int (t + f e) * 2 ^ j)) es =
      Fin (int ((t + f e) + sum_list (map f es)) * 2 ^ j)"
    using Cons.prems by (intro Cons.IH) (simp_all add: add.assoc)
  ultimately show ?case
    by (simp add: add.assoc)
qed

lemma sum_category_filter:
  "sum_category c t es = sum_all t (filter (\<lambda>e. category e = c) es)"
  by (induction es arbitrary: t) simp_all

lemma grandTotal_exact_aux:
  assumes "\<forall>x\<in>set R. total' (snd x) = Fin (int (g (fst x)) * 2 ^ j)"
    and "t + sum_list (map (\<lambda>x. g (fst x)) R) \<le> 2 ^ 53" and "j \<le> 2044"
  shows "foldl (\<lambda>gt (cat, data). num_add gt (total' data)) (Fin (int t * 2 ^ j)) R =
         Fin (int (t + sum_list (map (\<lambda>x. g (fst x)) R)) * 2 ^ j)"
  using assms(1,2)
proof (induction R arbitrary: t)
  case Nil
  show ?case by simp
next
  case (Cons x R)
  obtain c d where x: "x = (c, d)" by (cases x)
  have le: "int t + int (g c) \<le> 2 ^ 53"
  proof -
    have "t + g c \<le> 2 ^ 53" using Cons.prems(2) x by simp
    then have "int (t + g c) \<le> int (2 ^ 53)" by (rule iffD2 [OF of_nat_le_iff])
    then show ?thesis by simp
  qed
  have "num_add (Fin (int t * 2 ^ j)) (total' d) = Fin (int (t + g c) * 2 ^ j)"
    using Cons.prems(1) x num_add_exact [of "int t" "int (g c)" j] le assms(3) by simp
  moreover have "foldl (\<lambda>gt (cat, data). num_add gt (total' data)) (Fin (int (t + g c) * 2 ^ j)) R =
      Fin (int ((t + g c) + sum_list (map (\<lambda>x. g (fst x)) R)) * 2 ^ j)"
    using Cons.prems x by (intro Cons.IH) (simp_all add: add.assoc)
  ultimately show ?case
    using x by (simp add: add.assoc)
qed

lemma grandTotal_exact:
  assumes "\<forall>e\<in>set es. amount e = Fin (int (f e) * 2 ^ j)"
    and "sum_list (map f es) \<le> 2 ^ 53" and "j \<le> 2044"
  shows "grandTotal (categoryTotals es) = sum_all (Fin 0) es"
proof -
  define g where "g c = sum_list (map f (filter (\<lambda>e. category e = c) es))" for c
  have part: "sum_list (map g (map fst (categoryTotals es))) = sum_list (map f es)"
    unfolding g_def
    by (intro partition_sum categoryTotals_distinct) (simp add: categoryTotals_keys)
  have gle: "g c \<le> 2 ^ 53" for c
  proof -
    have "g c \<le> sum_list (map f es)"
      unfolding g_def by (induction es) auto
    with assms(2) show ?thesis by simp
  qed
  have ent: "\<forall>x\<in>set (categoryTotals es). total' (snd x) = Fin (int (g (fst x)) * 2 ^ j)"
  proof
    fix x assume "x \<in> set (categoryTotals es)"
    then have "(fst x, snd x) \<in> set (categoryTotals es)" by simp
    then have "total' (snd x) = sum_category (fst x) (Fin 0) es"
      using categoryTotals_entry by fastforce
    also have "\<dots> = sum_all (Fin (int 0 * 2 ^ j)) (filter (\<lambda>e. category e = fst x) es)"
      by (simp add: sum_category_filter)
    also have "\<dots> = Fin (int (0 + sum_list (map f (filter (\<lambda>e. category e = fst x) es))) * 2 ^ j)"
      using assms(1,3) gle [of "fst x"] by (intro sum_all_exact) (simp_all add: g_def)
    finally show "total' (snd x) = Fin (int (g (fst x)) * 2 ^ j)"
      by (simp add: g_def)
  qed
  have "grandTotal (categoryTotals es) =
      foldl (\<lambda>gt (cat, data). num_add gt (total' data)) (Fin (int 0 * 2 ^ j)) (categoryTotals es)"
    by (simp add: grandTotal_def)
  also have "\<dots> = Fin (int (0 + sum_list (map (\<lambda>x. g (fst x)) (categoryTotals es))) * 2 ^ j)"
    using ent assms(2,3) part by (intro grandTotal_exact_aux) (simp_all add: comp_def)
  also have "\<dots> = Fin (int (0 + sum_list (map f es)) * 2 ^ j)"
    using part by (simp add: comp_def)
  also have "\<dots> = sum_all (Fin (int 0 * 2 ^ j)) es"
    using assms by (intro sum_all_exact [symmetric]) simp_all
  finally show ?thesis by simp
qed

lemma dbl_units:
  fixes es :: "expense list"
  assumes "map amount es = map (\<lambda>n. dbl (int n) ex) ns"
  shows "\<exists>f. (\<forall>e\<in>set es. amount e = Fin (int (f e) * 2 ^ nat (ex + 1074))) \<and> map f es = ns"
proof -
  define j where "j = nat (ex + 1074)"
  define f where "f e = (case amount e of Fin k \<Rightarrow> nat (k div 2 ^ j) | _ \<Rightarrow> 0)" for e :: expense
  have len: "length es = length ns"
    using assms by (metis length_map)
  have at: "amount (es ! i) = Fin (int (ns ! i) * 2 ^ j)" if "i < length es" for i
  proof -
    have "map amount es ! i = map (\<lambda>n. dbl (int n) ex) ns ! i"
      using assms by simp
    then show ?thesis
      using that len by (simp add: dbl_def j_def)
  qed
  have fi: "f (es ! i) = ns ! i" if "i < length es" for i
    using at [OF that] by (simp add: f_def)
  have "\<forall>e\<in>set es. amount e = Fin (int (f e) * 2 ^ j)"
    using at fi by (metis in_set_conv_nth)
  moreover have "map f es = ns"
    using len fi by (intro nth_equalityI) simp_all
  ultimately show ?thesis
    unfolding j_def by blast
qed


section \<open>The top category\<close>

lemma sum_all_positive:
  assumes "\<forall>e\<in>set es. num_gt (amount e) (Fin 0)" and "t = Fin 0 \<or> num_gt t (Fin 0)"
  shows "sum_all t es = Fin 0 \<and> es = [] \<and> t = Fin 0 \<or> num_gt (sum_all t es) (Fin 0)"
  using assms
proof (induction es arbitrary: t)
  case Nil
  then show ?case by auto
next
  case (Cons e es)
  have "num_gt (num_add t (amount e)) (Fin 0)"
    using Cons.prems by (intro num_add_pos) simp_all
  then have "sum_all (num_add t (amount e)) es = Fin 0 \<and> es = [] \<and> num_add t (amount e) = Fin 0 \<or>
      num_gt (sum_all (num_add t (amount e)) es) (Fin 0)"
    using Cons.prems by (intro Cons.IH) simp_all
  with \<open>num_gt (num_add t (amount e)) (Fin 0)\<close> show ?case
    by (auto simp: num_gt_def)
qed

lemma categoryTotals_positive:
  assumes "\<forall>e\<in>set es. num_gt (amount e) (Fin 0)"
  shows "\<forall>x\<in>set (categoryTotals es). num_gt (total' (snd x)) (Fin 0)"
proof
  fix x assume x: "x \<in> set (categoryTotals es)"
  then have "(fst x, snd x) \<in> set (categoryTotals es)" by simp
  then have tot: "total' (snd x) = sum_all (Fin 0) (filter (\<lambda>e. category e = fst x) es)"
    using categoryTotals_entry by (fastforce simp: sum_category_filter)
  have "fst x \<in> category ` set es"
    using x categoryTotals_keys by blast
  then have ne: "filter (\<lambda>e. category e = fst x) es \<noteq> []"
    by (auto simp: filter_empty_conv)
  have "\<forall>e\<in>set (filter (\<lambda>e. category e = fst x) es). num_gt (amount e) (Fin 0)"
    using assms by simp
  from sum_all_positive [OF this, of "Fin 0"] ne tot
  show "num_gt (total' (snd x)) (Fin 0)" by simp
qed

lemma categoryTotals_nonempty: "es \<noteq> [] \<Longrightarrow> categoryTotals es \<noteq> []"
  using categoryTotals_keys [of es] by auto

text \<open>The running maximum of \<open>topCategory\<close>, from any start.\<close>

lemma top_fold:
  assumes "\<forall>x\<in>set R. total' (snd x) \<noteq> NaN" and "snd mx \<noteq> NaN"
  shows "(foldl (\<lambda>mx (cat, data). if num_gt (total' data) (snd mx) then (cat, total' data) else mx) mx R = mx \<and>
          (\<forall>x\<in>set R. num_le (total' (snd x)) (snd mx))) \<or>
         (\<exists>pre c d post. R = pre @ (c, d) # post \<and>
            foldl (\<lambda>mx (cat, data). if num_gt (total' data) (snd mx) then (cat, total' data) else mx) mx R =
              (c, total' d) \<and>
            num_gt (total' d) (snd mx) \<and>
            (\<forall>x\<in>set pre. num_gt (total' d) (total' (snd x))) \<and>
            (\<forall>x\<in>set post. num_le (total' (snd x)) (total' d)))"
  using assms
proof (induction R arbitrary: mx)
  case Nil
  show ?case by simp
next
  case (Cons x R)
  let ?step = "\<lambda>mx (cat, data). if num_gt (total' data) (snd mx) then (cat, total' data) else mx"
  obtain c d where x: "x = (c, d)" by (cases x)
  have dn: "total' d \<noteq> NaN" using Cons.prems(1) x by simp
  have Rn: "\<forall>x\<in>set R. total' (snd x) \<noteq> NaN" using Cons.prems(1) by simp
  show ?case
  proof (cases "num_gt (total' d) (snd mx)")
    case True
    then have st: "foldl ?step mx (x # R) = foldl ?step (c, total' d) R"
      by (simp add: x)
    from Cons.IH [of "(c, total' d)", OF Rn] dn
    consider (keep) "foldl ?step (c, total' d) R = (c, total' d)"
        "\<forall>y\<in>set R. num_le (total' (snd y)) (total' d)"
      | (later) pre c' d' post where "R = pre @ (c', d') # post"
        "foldl ?step (c, total' d) R = (c', total' d')" "num_gt (total' d') (total' d)"
        "\<forall>y\<in>set pre. num_gt (total' d') (total' (snd y))"
        "\<forall>y\<in>set post. num_le (total' (snd y)) (total' d')"
      by auto
    then show ?thesis
    proof cases
      case keep
      have "x # R = [] @ (c, d) # R \<and> foldl ?step mx (x # R) = (c, total' d) \<and>
          num_gt (total' d) (snd mx) \<and>
          (\<forall>y\<in>set []. num_gt (total' d) (total' (snd y))) \<and>
          (\<forall>y\<in>set R. num_le (total' (snd y)) (total' d))"
        using keep True st x by simp
      then show ?thesis
        by blast
    next
      case later
      have "num_gt (total' d') (snd mx)"
        using later(3) True by (rule num_gt_trans)
      then have "x # R = (x # pre) @ (c', d') # post \<and> foldl ?step mx (x # R) = (c', total' d') \<and>
          num_gt (total' d') (snd mx) \<and>
          (\<forall>y\<in>set (x # pre). num_gt (total' d') (total' (snd y))) \<and>
          (\<forall>y\<in>set post. num_le (total' (snd y)) (total' d'))"
        using later st x by simp
      then show ?thesis
        by blast
    qed
  next
    case False
    then have st: "foldl ?step mx (x # R) = foldl ?step mx R"
      by (simp add: x)
    have dle: "num_le (total' d) (snd mx)"
      using dn Cons.prems(2) False by (rule num_gt_or_le)
    from Cons.IH [of mx, OF Rn Cons.prems(2)]
    consider (keep) "foldl ?step mx R = mx" "\<forall>y\<in>set R. num_le (total' (snd y)) (snd mx)"
      | (later) pre c' d' post where "R = pre @ (c', d') # post"
        "foldl ?step mx R = (c', total' d')" "num_gt (total' d') (snd mx)"
        "\<forall>y\<in>set pre. num_gt (total' d') (total' (snd y))"
        "\<forall>y\<in>set post. num_le (total' (snd y)) (total' d')"
      by auto
    then show ?thesis
    proof cases
      case keep
      with dle st x show ?thesis by simp
    next
      case later
      have "num_gt (total' d') (total' d)"
        using later(3) dle by (rule num_gt_le_trans)
      then have "x # R = (x # pre) @ (c', d') # post \<and> foldl ?step mx (x # R) = (c', total' d') \<and>
          num_gt (total' d') (snd mx) \<and>
          (\<forall>y\<in>set (x # pre). num_gt (total' d') (total' (snd y))) \<and>
          (\<forall>y\<in>set post. num_le (total' (snd y)) (total' d'))"
        using later st x by simp
      then show ?thesis
        by blast
    qed
  qed
qed

section \<open>Signs, whole numbers and some literals\<close>

lemma num_gt_dbl_zero [simp]: "num_gt (dbl m e) (Fin 0) \<longleftrightarrow> 0 < m"
  by (simp add: dbl_def num_gt_def zero_less_mult_iff)

lemma num_le_dbl_zero [simp]: "num_le (dbl m e) (Fin 0) \<longleftrightarrow> m \<le> 0"
  by (simp add: dbl_def num_le_def zero_less_mult_iff not_less)

lemma num_gt_whole_zero [simp]: "num_gt (whole n) (Fin 0) \<longleftrightarrow> 0 < n"
  using unit_scale_pos by (simp add: whole_def num_gt_def zero_less_mult_iff)

lemma num_add_whole:
  assumes "m + n \<le> 2 ^ 53"
  shows "num_add (whole m) (whole n) = whole (m + n)"
proof -
  have "int m + int n \<le> 2 ^ 53"
  proof -
    have "int (m + n) \<le> int (2 ^ 53)"
      using assms by (rule iffD2 [OF of_nat_le_iff])
    then show ?thesis by simp
  qed
  then show ?thesis
    using num_add_exact [of "int m" "int n" 1074] by (simp add: whole_def unit_scale_def)
qed

lemma num_add_zero_whole: "n \<le> 2 ^ 53 \<Longrightarrow> num_add (Fin 0) (whole n) = whole n"
  using num_add_whole [of 0 n] by (simp add: whole_def)

lemma num_gt_whole [simp]: "num_gt (whole m) (whole n) \<longleftrightarrow> n < m"
  using unit_scale_pos by (simp add: whole_def num_gt_def)

lemma Fin_0_whole: "Fin 0 = whole 0"
  by (simp add: whole_def)

text \<open>Two categories with the same total: the one met first is kept.\<close>

lemma tie_example:
  "categoryTotals
     [\<lparr>id' = 1, amount = whole 5, category = ''food'', description = ''lunch'', date = 0\<rparr>,
      \<lparr>id' = 2, amount = whole 8, category = ''transport'', description = ''taxi'', date = 0\<rparr>,
      \<lparr>id' = 3, amount = whole 3, category = ''food'', description = ''coffee'', date = 0\<rparr>] =
     [(''food'', \<lparr>total' = whole 8, count' = 2\<rparr>), (''transport'', \<lparr>total' = whole 8, count' = 1\<rparr>)] \<and>
   topCategory
     [(''food'', \<lparr>total' = whole 8, count' = 2\<rparr>), (''transport'', \<lparr>total' = whole 8, count' = 1\<rparr>)] =
     (''food'', whole 8)"
  by (simp add: categoryTotals_def add_to_totals_def topCategory_def num_add_whole
      num_add_zero_whole Fin_0_whole)

text \<open>The constants are the values of the decimal literals.\<close>

lemma decimal_0_1: "decimal 1 10 = lit_0_1"
  by code_simp

lemma decimal_0_2: "decimal 2 10 = lit_0_2"
  by code_simp

lemma decimal_0_3: "decimal 3 10 = lit_0_3"
  by code_simp

lemma decimal_0_6: "decimal 6 10 = lit_0_6"
  by code_simp

lemma decimal_0_6000000000000001:
  "decimal 6000000000000001 10000000000000000 = lit_0_6000000000000001"
  by code_simp

text \<open>
  The additions behind \<open>(0.1 + 0.2) + 0.3\<close> and \<open>0.1 + (0.2 + 0.3)\<close>: the first is
  \<open>0.6000000000000001\<close>, the second \<open>0.6\<close>.
\<close>

lemma add_0_1: "num_add (Fin 0) lit_0_1 = lit_0_1"
  by code_simp

lemma add_0_2: "num_add (Fin 0) lit_0_2 = lit_0_2"
  by code_simp

lemma add_0_1_0_2: "num_add lit_0_1 lit_0_2 = dbl 5404319552844596 (- 54)"
  by code_simp

lemma add_0_3: "num_add (dbl 5404319552844596 (- 54)) lit_0_3 = lit_0_6000000000000001"
  by code_simp

lemma add_0_2_0_3: "num_add lit_0_2 lit_0_3 = lit_0_5"
  by code_simp

lemma add_0_1_0_5: "num_add lit_0_1 lit_0_5 = lit_0_6"
  by code_simp

lemma lit_0_6_differ: "lit_0_6000000000000001 \<noteq> lit_0_6"
  by code_simp

section \<open>Editing\<close>

text \<open>
  What the validator of the specification accepts, the script's \<open>checkValidity\<close> accepts too;
  the converse fails for NaN, which the specification's validator rejects.
\<close>

lemma positive_number_iff: "positive_number v \<longleftrightarrow> (\<exists>x. v = JNum x \<and> num_gt x (Fin 0))"
  by (cases v) (simp_all add: positive_number_def)

lemma validate_accepts_iff:
  "validate amt cat descr = Inr () \<longleftrightarrow>
     positive_number amt \<and> (\<exists>c. cat = JStr c \<and> c \<in> set categories) \<and> (\<exists>d. descr = JStr d)"
proof -
  have c: "includes' categories cat \<longleftrightarrow> (\<exists>c. cat = JStr c \<and> c \<in> set categories)"
    by (cases cat) simp_all
  have d: "typeof descr = ''string'' \<longleftrightarrow> (\<exists>d. descr = JStr d)"
    by (cases descr) simp_all
  show ?thesis
    by (simp add: validate_def c d)
qed

lemma validate_imp_checkValidity:
  "validate amt cat descr = Inr () \<Longrightarrow> fst (checkValidity sn amt cat descr)"
  using num_gt_not_le by (auto simp: validate_accepts_iff positive_number_iff checkValidity_accepts_iff)

lemma validate_NaN: "validate (JNum NaN) cat descr = Inl InvalidAmount"
  by (simp add: validate_def positive_number_def num_gt_def)

text \<open>An edit whose merged record the validator accepts writes that record in place.\<close>

lemma editExpense_commits:
  assumes "findById ident es = Some old" and "merged fs old = (JNum a, JStr c, JStr d)"
    and "validate (JNum a) (JStr c) (JStr d) = Inr ()"
  shows "editExpense ident fs es =
           (Inr (), es[nat (findIndex (\<lambda>exp. strict_eq (JNum (whole (id' exp))) ident) es) :=
              old\<lparr>amount := a, category := c, description := d\<rparr>])"
  using assms by (simp add: editExpense_def)



section \<open>Totals\<close>

text \<open>
  The total of a record sequence is the value of the loop of \<open>calculateTotal\<close> from 0,
  \<open>sum_all (Fin 0)\<close>: what \<open>calculateTotal()\<close> prints on a ledger that is not empty.
\<close>

lemma calculateTotal_all:
  "es \<noteq> [] \<Longrightarrow> calculateTotal [] es = [(Log, Total (sum_all (Fin 0) es))]"
  by (simp add: calculateTotal_def)

text \<open>
  Claim C7, as amended. The total of the amounts is additive over concatenation,
  \<open>total(A ++ B) = total(A) + total(B)\<close>, when no addition rounds: when all amounts of \<open>A\<close> and
  \<open>B\<close> are whole multiples \<open>n * 2^ex\<close> of one power of two (\<open>- 1074 \<le> ex \<le> 970\<close>; whole
  numbers for \<open>ex = 0\<close>) and the multipliers sum to at most \<open>2^53\<close>. In general the total of
  \<open>A ++ B\<close> is the running total of \<open>A\<close> carried on through \<open>B\<close> (lemma \<open>sum_all_append\<close>).
\<close>

theorem sum_all_additive_exact:
  assumes "map amount A = map (\<lambda>n. dbl (int n) ex) ms"
    and "map amount B = map (\<lambda>n. dbl (int n) ex) ns"
    and "sum_list ms + sum_list ns \<le> 2 ^ 53" and "- 1074 \<le> ex" and "ex \<le> 970"
  shows "sum_all (Fin 0) (A @ B) = num_add (sum_all (Fin 0) A) (sum_all (Fin 0) B)"
proof -
  define j where "j = nat (ex + 1074)"
  have j: "j \<le> 2044" using assms(5) by (simp add: j_def)
  obtain f where f: "\<forall>e\<in>set A. amount e = Fin (int (f e) * 2 ^ j)" "map f A = ms"
    using dbl_units [OF assms(1)] unfolding j_def by blast
  obtain g where g: "\<forall>e\<in>set B. amount e = Fin (int (g e) * 2 ^ j)" "map g B = ns"
    using dbl_units [OF assms(2)] unfolding j_def by blast
  have A: "sum_all (Fin (int 0 * 2 ^ j)) A = Fin (int (0 + sum_list (map f A)) * 2 ^ j)"
    using f assms(3) j by (intro sum_all_exact) simp_all
  have B: "sum_all (Fin (int 0 * 2 ^ j)) B = Fin (int (0 + sum_list (map g B)) * 2 ^ j)"
    using g assms(3) j by (intro sum_all_exact) simp_all
  have AB: "sum_all (Fin (int (sum_list ms) * 2 ^ j)) B =
      Fin (int (sum_list ms + sum_list (map g B)) * 2 ^ j)"
    using g assms(3) j by (intro sum_all_exact) simp_all
  have le: "int (sum_list ms) + int (sum_list ns) \<le> 2 ^ 53"
  proof -
    have "int (sum_list ms + sum_list ns) \<le> int (2 ^ 53)"
      using assms(3) by (rule iffD2 [OF of_nat_le_iff])
    then show ?thesis by simp
  qed
  have "num_add (Fin (int (sum_list ms) * 2 ^ j)) (Fin (int (sum_list ns) * 2 ^ j)) =
      Fin ((int (sum_list ms) + int (sum_list ns)) * 2 ^ j)"
    using le j by (intro num_add_exact) simp_all
  then show ?thesis
    using A B AB f(2) g(2) by (simp add: sum_all_append)
qed

theorem sum_all_additive_exact_witness:
  "map amount [\<lparr>id' = 1, amount = dbl 20 (- 1), category = ''food'', description = ''lunch'', date = 0\<rparr>,
               \<lparr>id' = 2, amount = dbl 51 (- 1), category = ''transport'', description = ''taxi'', date = 0\<rparr>] =
     map (\<lambda>n. dbl (int n) (- 1)) [20, 51] \<and>
   map amount [\<lparr>id' = 3, amount = dbl 10 (- 1), category = ''food'', description = ''coffee'', date = 0\<rparr>] =
     map (\<lambda>n. dbl (int n) (- 1)) [10] \<and>
   sum_list [20, 51] + sum_list [10] \<le> (2::nat) ^ 53 \<and> (- 1074 :: int) \<le> - 1 \<and> (- 1 :: int) \<le> 970 \<and>
   sum_all (Fin 0)
     ([\<lparr>id' = 1, amount = dbl 20 (- 1), category = ''food'', description = ''lunch'', date = 0\<rparr>,
       \<lparr>id' = 2, amount = dbl 51 (- 1), category = ''transport'', description = ''taxi'', date = 0\<rparr>] @
      [\<lparr>id' = 3, amount = dbl 10 (- 1), category = ''food'', description = ''coffee'', date = 0\<rparr>]) =
   num_add
     (sum_all (Fin 0)
        [\<lparr>id' = 1, amount = dbl 20 (- 1), category = ''food'', description = ''lunch'', date = 0\<rparr>,
         \<lparr>id' = 2, amount = dbl 51 (- 1), category = ''transport'', description = ''taxi'', date = 0\<rparr>])
     (sum_all (Fin 0)
        [\<lparr>id' = 3, amount = dbl 10 (- 1), category = ''food'', description = ''coffee'', date = 0\<rparr>])"
proof -
  have h1: "map amount [\<lparr>id' = 1, amount = dbl 20 (- 1), category = ''food'', description = ''lunch'', date = 0\<rparr>,
               \<lparr>id' = 2, amount = dbl 51 (- 1), category = ''transport'', description = ''taxi'', date = 0\<rparr>] =
     map (\<lambda>n. dbl (int n) (- 1)) [20, 51]"
    by simp
  have h2: "map amount [\<lparr>id' = 3, amount = dbl 10 (- 1), category = ''food'', description = ''coffee'', date = 0\<rparr>] =
     map (\<lambda>n. dbl (int n) (- 1)) [10]"
    by simp
  have h3: "sum_list [20, 51] + sum_list [10] \<le> (2::nat) ^ 53"
    by simp
  have h4: "(- 1074 :: int) \<le> - 1" and h5: "(- 1 :: int) \<le> 970"
    by simp_all
  show ?thesis
    using h1 h2 h3 sum_all_additive_exact [OF h1 h2 h3 h4 h5] by simp
qed

text \<open>
  Claim C7, as stated, for all record sequences: with \<open>A\<close> one record of amount 0.1 and \<open>B\<close> two
  records of amounts 0.2 and 0.3, the total of \<open>A ++ B\<close> is \<open>0.6000000000000001\<close> and the sum of
  the two totals is \<open>0.6\<close>. Every \<open>+=\<close> of the loop rounds to binary64.
\<close>

theorem sum_all_not_additive:
  "sum_all (Fin 0)
     ([\<lparr>id' = 1, amount = lit_0_1, category = ''food'', description = ''tea'', date = 0\<rparr>] @
      [\<lparr>id' = 2, amount = lit_0_2, category = ''food'', description = ''bun'', date = 0\<rparr>,
       \<lparr>id' = 3, amount = lit_0_3, category = ''food'', description = ''jam'', date = 0\<rparr>]) =
     lit_0_6000000000000001 \<and>
   num_add
     (sum_all (Fin 0)
        [\<lparr>id' = 1, amount = lit_0_1, category = ''food'', description = ''tea'', date = 0\<rparr>])
     (sum_all (Fin 0)
        [\<lparr>id' = 2, amount = lit_0_2, category = ''food'', description = ''bun'', date = 0\<rparr>,
         \<lparr>id' = 3, amount = lit_0_3, category = ''food'', description = ''jam'', date = 0\<rparr>]) =
     lit_0_6 \<and>
   lit_0_6000000000000001 \<noteq> lit_0_6"
  by (simp add: add_0_1 add_0_2 add_0_1_0_2 add_0_3 add_0_2_0_3 add_0_1_0_5 lit_0_6_differ)

text \<open>
  Claim C8, as amended. For every record sequence the counts of the entries of
  \<open>categoryTotals\<close> sum to the number of records; and the totals of the entries, summed as the
  report sums them, equal the total of all amounts when no addition rounds (amounts
  \<open>n * 2^ex\<close> with \<open>- 1074 \<le> ex \<le> 970\<close> and multipliers summing to at most \<open>2^53\<close>).
\<close>

theorem categoryTotals_partition:
  "sum_list (map (\<lambda>(c, d). count' d) (categoryTotals es)) = length es \<and>
   (map amount es = map (\<lambda>n. dbl (int n) ex) ns \<and> sum_list ns \<le> 2 ^ 53 \<and>
    - 1074 \<le> ex \<and> ex \<le> 970 \<longrightarrow>
      grandTotal (categoryTotals es) = sum_all (Fin 0) es)"
proof (intro conjI impI)
  show "sum_list (map (\<lambda>(c, d). count' d) (categoryTotals es)) = length es"
    by (rule categoryTotals_counts)
next
  assume a: "map amount es = map (\<lambda>n. dbl (int n) ex) ns \<and> sum_list ns \<le> 2 ^ 53 \<and>
    - 1074 \<le> ex \<and> ex \<le> 970"
  then obtain f where f: "\<forall>e\<in>set es. amount e = Fin (int (f e) * 2 ^ nat (ex + 1074))" "map f es = ns"
    using dbl_units [of es ex ns] by blast
  have "nat (ex + 1074) \<le> 2044"
    using a by linarith
  with f a show "grandTotal (categoryTotals es) = sum_all (Fin 0) es"
    by (intro grandTotal_exact [of es f "nat (ex + 1074)"]) simp_all
qed

theorem categoryTotals_partition_witness:
  "map amount [\<lparr>id' = 1, amount = dbl 20 (- 1), category = ''food'', description = ''lunch'', date = 0\<rparr>,
               \<lparr>id' = 2, amount = dbl 51 (- 1), category = ''transport'', description = ''taxi'', date = 0\<rparr>,
               \<lparr>id' = 3, amount = dbl 10 (- 1), category = ''food'', description = ''coffee'', date = 0\<rparr>] =
     map (\<lambda>n. dbl (int n) (- 1)) [20, 51, 10] \<and>
   sum_list [20, 51, 10] \<le> (2::nat) ^ 53 \<and> (- 1074 :: int) \<le> - 1 \<and> (- 1 :: int) \<le> 970 \<and>
   sum_list (map (\<lambda>(c, d). count' d) (categoryTotals
     [\<lparr>id' = 1, amount = dbl 20 (- 1), category = ''food'', description = ''lunch'', date = 0\<rparr>,
      \<lparr>id' = 2, amount = dbl 51 (- 1), category = ''transport'', description = ''taxi'', date = 0\<rparr>,
      \<lparr>id' = 3, amount = dbl 10 (- 1), category = ''food'', description = ''coffee'', date = 0\<rparr>])) = 3 \<and>
   grandTotal (categoryTotals
     [\<lparr>id' = 1, amount = dbl 20 (- 1), category = ''food'', description = ''lunch'', date = 0\<rparr>,
      \<lparr>id' = 2, amount = dbl 51 (- 1), category = ''transport'', description = ''taxi'', date = 0\<rparr>,
      \<lparr>id' = 3, amount = dbl 10 (- 1), category = ''food'', description = ''coffee'', date = 0\<rparr>]) =
   sum_all (Fin 0)
     [\<lparr>id' = 1, amount = dbl 20 (- 1), category = ''food'', description = ''lunch'', date = 0\<rparr>,
      \<lparr>id' = 2, amount = dbl 51 (- 1), category = ''transport'', description = ''taxi'', date = 0\<rparr>,
      \<lparr>id' = 3, amount = dbl 10 (- 1), category = ''food'', description = ''coffee'', date = 0\<rparr>]"
proof -
  let ?es = "[\<lparr>id' = 1, amount = dbl 20 (- 1), category = ''food'', description = ''lunch'', date = 0\<rparr>,
      \<lparr>id' = 2, amount = dbl 51 (- 1), category = ''transport'', description = ''taxi'', date = 0\<rparr>,
      \<lparr>id' = 3, amount = dbl 10 (- 1), category = ''food'', description = ''coffee'', date = 0\<rparr>]"
  have h: "map amount ?es = map (\<lambda>n. dbl (int n) (- 1)) [20, 51, 10] \<and>
      sum_list [20, 51, 10] \<le> (2::nat) ^ 53 \<and> (- 1074 :: int) \<le> - 1 \<and> (- 1 :: int) \<le> 970"
    by simp
  from categoryTotals_partition [of ?es "- 1" "[20, 51, 10]"] h
  have "sum_list (map (\<lambda>(c, d). count' d) (categoryTotals ?es)) = length ?es"
    and "grandTotal (categoryTotals ?es) = sum_all (Fin 0) ?es"
    by blast+
  with h show ?thesis
    by simp
qed

text \<open>
  Claim C8, as stated, for every record sequence: with 0.1 under "food" and 0.2 and 0.3 under
  "transport", the entries hold 0.1 and 0.5 and sum to \<open>0.6\<close>, while the total of the three
  amounts in ledger order is \<open>0.6000000000000001\<close>.
\<close>

theorem grandTotal_not_sum_all:
  "grandTotal (categoryTotals
     [\<lparr>id' = 1, amount = lit_0_1, category = ''food'', description = ''tea'', date = 0\<rparr>,
      \<lparr>id' = 2, amount = lit_0_2, category = ''transport'', description = ''bus'', date = 0\<rparr>,
      \<lparr>id' = 3, amount = lit_0_3, category = ''transport'', description = ''tram'', date = 0\<rparr>]) =
     lit_0_6 \<and>
   sum_all (Fin 0)
     [\<lparr>id' = 1, amount = lit_0_1, category = ''food'', description = ''tea'', date = 0\<rparr>,
      \<lparr>id' = 2, amount = lit_0_2, category = ''transport'', description = ''bus'', date = 0\<rparr>,
      \<lparr>id' = 3, amount = lit_0_3, category = ''transport'', description = ''tram'', date = 0\<rparr>] =
     lit_0_6000000000000001 \<and>
   lit_0_6000000000000001 \<noteq> lit_0_6"
  by (simp add: categoryTotals_def add_to_totals_def grandTotal_def
      add_0_1 add_0_2 add_0_1_0_2 add_0_3 add_0_2_0_3 add_0_1_0_5 lit_0_6_differ)

section \<open>The top category of the report\<close>

text \<open>
  On a ledger whose amounts are all positive numbers, \<open>topCategory\<close> is an entry of
  \<open>categoryTotals\<close> with the largest total, the first of them in the order of the entries, and
  the last line of the report prints it. On an empty ledger the report is the one warning.
\<close>

lemma topCategory_largest_first:
  "(generateReport monthYear [] = [(Warn, NoExpensesToReport)]) \<and>
   (es \<noteq> [] \<and> (\<forall>e\<in>set es. num_gt (amount e) (Fin 0)) \<longrightarrow>
      (\<exists>pre c d post.
         categoryTotals es = pre @ (c, d) # post \<and>
         topCategory (categoryTotals es) = (c, total' d) \<and>
         last (generateReport monthYear es) = (Log, ReportTopCategory c (total' d)) \<and>
         (\<forall>x\<in>set pre. num_gt (total' d) (total' (snd x))) \<and>
         (\<forall>x\<in>set post. num_le (total' (snd x)) (total' d))))"
proof (intro conjI impI)
  show "generateReport monthYear [] = [(Warn, NoExpensesToReport)]"
    by (simp add: generateReport_def)
next
  assume a: "es \<noteq> [] \<and> (\<forall>e\<in>set es. num_gt (amount e) (Fin 0))"
  let ?R = "categoryTotals es"
  have pos: "\<forall>x\<in>set ?R. num_gt (total' (snd x)) (Fin 0)"
    using a categoryTotals_positive by blast
  then have nn: "\<forall>x\<in>set ?R. total' (snd x) \<noteq> NaN"
    using num_gt_not_NaN by blast
  have ne: "?R \<noteq> []"
    using a by (simp add: categoryTotals_nonempty)
  then obtain y where y: "y \<in> set ?R" by (cases ?R) auto
  have "\<not> num_le (total' (snd y)) (Fin 0)"
    using pos y num_gt_not_le by blast
  with y have no: "\<not> (\<forall>x\<in>set ?R. num_le (total' (snd x)) (snd ([] :: string, Fin 0)))"
    by auto
  from top_fold [OF nn, of "([], Fin 0)"] no
  obtain pre c d post where r: "?R = pre @ (c, d) # post"
      "topCategory ?R = (c, total' d)"
      "\<forall>x\<in>set pre. num_gt (total' d) (total' (snd x))"
      "\<forall>x\<in>set post. num_le (total' (snd x)) (total' d)"
    unfolding topCategory_def by auto
  have "last (generateReport monthYear es) = (Log, ReportTopCategory c (total' d))"
    using a r(2) by (simp add: generateReport_def Let_def)
  with r show "\<exists>pre c d post.
         categoryTotals es = pre @ (c, d) # post \<and>
         topCategory (categoryTotals es) = (c, total' d) \<and>
         last (generateReport monthYear es) = (Log, ReportTopCategory c (total' d)) \<and>
         (\<forall>x\<in>set pre. num_gt (total' d) (total' (snd x))) \<and>
         (\<forall>x\<in>set post. num_le (total' (snd x)) (total' d))"
    by blast
qed

text \<open>
  Claim C9. For every non-empty record sequence \<open>topCategory\<close> is to be the entry with the
  largest total. The validator admits NaN as an amount (claim C2). On the ledger that
  \<open>addExpense(NaN, "food", "lunch")\<close> leaves, the one entry has the total NaN, the test
  \<open>data.total > max.total\<close> is false, and the report prints the starting value of the
  reduction, the empty category with total 0, which is no entry.
\<close>

theorem topCategory_of_NaN_ledger:
  "fst (addExpense sn now (JNum NaN) (JStr ''food'') (JStr ''lunch'') []) =
     [\<lparr>id' = 1, amount = NaN, category = ''food'', description = ''lunch'', date = now\<rparr>] \<and>
   categoryTotals
     [\<lparr>id' = 1, amount = NaN, category = ''food'', description = ''lunch'', date = now\<rparr>] =
     [(''food'', \<lparr>total' = NaN, count' = 1\<rparr>)] \<and>
   topCategory [(''food'', \<lparr>total' = NaN, count' = 1\<rparr>)] = ([], Fin 0) \<and>
   last (generateReport monthYear
     [\<lparr>id' = 1, amount = NaN, category = ''food'', description = ''lunch'', date = now\<rparr>]) =
     (Log, ReportTopCategory [] (Fin 0))"
  by (simp add: addExpense_accepted checkValidity_accepts_iff food_category categoryTotals_def
      add_to_totals_def topCategory_def generateReport_def grandTotal_def num_gt_def)

section \<open>The empty ledger\<close>

text \<open>
  Claim C10, as amended. On an empty ledger \<open>calculateTotal\<close> prints no number: for any
  category argument it logs "No expenses found. Please add some." with \<open>console.log\<close>, which
  is information and not an error, and returns; \<open>generateReport\<close> warns "No expenses to report."
  and returns before any total, average or top category is computed.
\<close>

theorem empty_ledger_reports:
  "calculateTotal cat [] = [(Log, NoExpensesFound)] \<and>
   generateReport monthYear [] = [(Warn, NoExpensesToReport)]"
  by (simp add: calculateTotal_def generateReport_def)

text \<open>
  Claim C10, as stated: the total of an empty ledger is to be the number 0. The call
  \<open>calculateTotal()\<close> on the empty ledger prints the message above and not \<open>Total: 0\<close>.
\<close>

theorem calculateTotal_empty_prints_no_total:
  "calculateTotal [] [] = [(Log, NoExpensesFound)] \<and>
   calculateTotal [] [] \<noteq> [(Log, Total (Fin 0))]"
  by (simp add: calculateTotal_def)

end
